theory Spec2Isabelle
  imports Main "HOL-Library.Word" "HOL-Library.Signed_Division"
begin

section \<open>c2clat: inter-core one-way data latency\<close>

text \<open>
  A shallow embedding of \<^verbatim>\<open>c2clat.cpp\<close>. The program is one function, \<^verbatim>\<open>main\<close>,
  and the model follows its phases in source order: the \<^verbatim>\<open>getopt\<close> loop, the affinity
  query, the enumeration loop, the nested measurement loops and the printing code.

  Everything \<^verbatim>\<open>main\<close> obtains from the operating system or the C and C++ libraries is
  a field of the record \<open>platform\<close>: the constant \<^verbatim>\<open>CPU_SETSIZE\<close>, the results of
  \<^verbatim>\<open>sched_getaffinity\<close> and \<^verbatim>\<open>sched_setaffinity\<close>, and the readings of
  \<^verbatim>\<open>std::chrono::steady_clock\<close>. The two threads of one measurement only exchange
  sequence numbers through \<^verbatim>\<open>seq1\<close> and \<^verbatim>\<open>seq2\<close>; what reaches the rest of the
  program is the pair of clock readings around each batch of 100 handshakes, so the
  handshake itself is not modelled and the readings are given by the platform.
\<close>

subsection \<open>Types of the program\<close>

text \<open>\<^verbatim>\<open>int\<close> values are kept in range by \<^verbatim>\<open>std::stoi\<close> and the clamping, so they are
  modelled as \<open>int\<close>. \<^verbatim>\<open>std::chrono::nanoseconds\<close> is a signed 64-bit count.\<close>

type_synonym nanoseconds = "64 word"

text \<open>A \<^verbatim>\<open>cpu_set_t\<close> is modelled by the set of CPU numbers whose bit is set;
  \<^verbatim>\<open>CPU_ISSET\<close> reads one bit.\<close>

type_synonym cpu_set_t = "int set"

definition CPU_ISSET :: "int \<Rightarrow> cpu_set_t \<Rightarrow> bool" where
  "CPU_ISSET cpu cpuset = (cpu \<in> cpuset)"

text \<open>\<^verbatim>\<open>std::map<std::pair<int, int>, std::chrono::nanoseconds>\<close>\<close>

type_synonym latency_map = "int \<times> int \<rightharpoonup> nanoseconds"

record platform =
  CPU_SETSIZE :: int
  \<comment> \<open>\<open>True\<close>: \<^verbatim>\<open>getopt\<close> stops at the first non-option argument (POSIX);
      \<open>False\<close>: it permutes \<^verbatim>\<open>argv\<close> and scans all of it (GNU default).\<close>
  posixly_correct :: bool
  \<comment> \<open>the mask stored by \<^verbatim>\<open>sched_getaffinity\<close>, or the text of \<^verbatim>\<open>errno\<close> when it returns -1\<close>
  sched_getaffinity :: "string + cpu_set_t"
  \<comment> \<open>\<^verbatim>\<open>sched_setaffinity\<close> to one CPU: the text of \<^verbatim>\<open>errno\<close> when it returns -1\<close>
  sched_setaffinity :: "int \<Rightarrow> string option"
  \<comment> \<open>\<open>steady_clock_now i j m\<close>: the readings \<^verbatim>\<open>ts1\<close> and \<^verbatim>\<open>ts2\<close> of sample \<open>m\<close>
      in the measurement at loop indices \<open>i\<close>, \<open>j\<close>\<close>
  steady_clock_now :: "nat \<Rightarrow> nat \<Rightarrow> nat \<Rightarrow> nanoseconds \<times> nanoseconds"

datatype exception = Invalid_argument | Out_of_range

text \<open>How the process ends: \<open>Exit code out err\<close> with the bytes written to
  \<^verbatim>\<open>std::cout\<close> and to the error stream by \<^verbatim>\<open>main\<close> and \<^verbatim>\<open>pinThread\<close> (the
  diagnostic that \<^verbatim>\<open>getopt\<close> itself prints before it returns \<^verbatim>\<open>'?'\<close> is left out), or
  \<^verbatim>\<open>std::terminate\<close> after an exception that nothing catches.\<close>

datatype outcome = Exit int string string | Terminate exception

record options =
  nsamples :: int
  begin_core :: int
  end_core :: int
  plot :: bool

subsection \<open>\<^verbatim>\<open>std::stoi\<close>\<close>

text \<open>\<^verbatim>\<open>std::stoi(str)\<close> with base 10: leading white space, an optional sign, then the
  longest run of decimal digits; what follows is ignored. No digit:
  \<^verbatim>\<open>std::invalid_argument\<close>; a value outside \<^verbatim>\<open>int\<close>: \<^verbatim>\<open>std::out_of_range\<close>.\<close>

definition isspace :: "char \<Rightarrow> bool" where
  "isspace c = (c \<in> set [CHR '' '', CHR 0x09, CHR 0x0A, CHR 0x0B, CHR 0x0C, CHR 0x0D])"

definition isdigit :: "char \<Rightarrow> bool" where
  "isdigit c = (c \<in> set ''0123456789'')"

definition digit_value :: "char \<Rightarrow> int" where
  "digit_value c = int (of_char c) - 48"

definition decimal :: "string \<Rightarrow> int" where
  "decimal ds = foldl (\<lambda>v c. 10 * v + digit_value c) 0 ds"

definition INT_MAX :: int where "INT_MAX = 2147483647"
definition INT_MIN :: int where "INT_MIN = - 2147483648"

definition stoi :: "string \<Rightarrow> exception + int" where
  "stoi str =
     (let s = dropWhile isspace str;
          neg = (s \<noteq> [] \<and> hd s = CHR ''-'');
          t = (if s \<noteq> [] \<and> (hd s = CHR ''-'' \<or> hd s = CHR ''+'') then tl s else s);
          ds = takeWhile isdigit t;
          v = (if neg then - decimal ds else decimal ds)
      in if ds = [] then Inl Invalid_argument
         else if v < INT_MIN \<or> INT_MAX < v then Inl Out_of_range
         else Inr v)"

subsection \<open>\<^verbatim>\<open>getopt\<close>\<close>

text \<open>\<open>optspec optstring c\<close>: \<open>None\<close> when \<open>c\<close> is not an option character of
  \<open>optstring\<close>, otherwise whether the option takes an argument.\<close>

fun optspec :: "string \<Rightarrow> char \<Rightarrow> bool option" where
  "optspec [] c = None"
| "optspec (x # xs) c =
     (if x = c \<and> c \<noteq> CHR '':'' then Some (xs \<noteq> [] \<and> hd xs = CHR '':'')
      else optspec xs c)"

definition nonoption :: "string \<Rightarrow> bool" where
  "nonoption a = (a = [] \<or> hd a \<noteq> CHR ''-'' \<or> a = ''-'')"

text \<open>All the calls of \<^verbatim>\<open>getopt(argc, argv, optstring)\<close> until it returns -1: the pairs
  (return value, \<^verbatim>\<open>optarg\<close>) in order, and the arguments from \<^verbatim>\<open>argv[optind]\<close> on when
  it has returned -1. The first string is what is left of the \<^verbatim>\<open>argv\<close> element being
  scanned, the list is the elements after it. An option character that is not in
  \<open>optstring\<close>, or an option without its argument, gives \<^verbatim>\<open>'?'\<close>.\<close>

fun getopt :: "bool \<Rightarrow> string \<Rightarrow> string \<Rightarrow> string list \<Rightarrow> (char \<times> string) list \<times> string list" where
  "getopt posix optstring [] [] = ([], [])"
| "getopt posix optstring [] (a # argv) =
     (if a = ''--'' then ([], argv)
      else if nonoption a then
        (if posix then ([], a # argv)
         else (let (rets, rest) = getopt posix optstring [] argv in (rets, a # rest)))
      else getopt posix optstring (tl a) argv)"
| "getopt posix optstring (c # cs) argv =
     (case optspec optstring c of
        None \<Rightarrow>
          (let (rets, rest) = getopt posix optstring cs argv in ((CHR ''?'', []) # rets, rest))
      | Some False \<Rightarrow>
          (let (rets, rest) = getopt posix optstring cs argv in ((c, []) # rets, rest))
      | Some True \<Rightarrow>
          (if cs \<noteq> [] then
             (let (rets, rest) = getopt posix optstring [] argv in ((c, cs) # rets, rest))
           else (case argv of
              [] \<Rightarrow> ([(CHR ''?'', [])], [])
            | a # argv' \<Rightarrow>
                (let (rets, rest) = getopt posix optstring [] argv' in ((c, a) # rets, rest)))))"

subsection \<open>The option loop of \<^verbatim>\<open>main\<close>\<close>

definition usage_text :: string where
  \<open>usage_text =
     ''c2clat 1.0.1 '' @ [CHR 0xC2, CHR 0xA9] @ '' 2020 Erik Rigtorp <erik@rigtorp.se>\<newline>'' @
     ''usage: c2clat [-p] [-s number_of_samples] [-b begin_core] [-e end_core]\<newline>'' @
     ''\<newline>Plot results using gnuplot:\<newline>'' @
     ''c2clat -p | gnuplot -p\<newline>''\<close>

definition usage :: outcome where
  "usage = Exit 1 [] usage_text"

definition initial_options :: "platform \<Rightarrow> options" where
  "initial_options pf =
     \<lparr>nsamples = 1000, begin_core = 0, end_core = CPU_SETSIZE pf, plot = False\<rparr>"

text \<open>The \<^verbatim>\<open>while ((opt = getopt(...)) != -1) switch (opt)\<close> loop, over the values
  \<^verbatim>\<open>getopt\<close> returns. \<open>Inl\<close> is the end of the process.\<close>

fun option_loop :: "platform \<Rightarrow> options \<Rightarrow> (char \<times> string) list \<Rightarrow> outcome + options" where
  "option_loop pf opts [] = Inr opts"
| "option_loop pf opts ((opt, optarg) # rets) =
     (if opt = CHR ''p'' then option_loop pf (opts\<lparr>plot := True\<rparr>) rets
      else if opt = CHR ''s'' then
        (case stoi optarg of
           Inl e \<Rightarrow> Inl (Terminate e)
         | Inr v \<Rightarrow> option_loop pf (opts\<lparr>nsamples := v\<rparr>) rets)
      else if opt = CHR ''b'' then
        (case stoi optarg of
           Inl e \<Rightarrow> Inl (Terminate e)
         | Inr v \<Rightarrow> option_loop pf (opts\<lparr>begin_core := max v 0\<rparr>) rets)
      else if opt = CHR ''e'' then
        (case stoi optarg of
           Inl e \<Rightarrow> Inl (Terminate e)
         | Inr v \<Rightarrow> option_loop pf (opts\<lparr>end_core := min v (CPU_SETSIZE pf)\<rparr>) rets)
      else Inl usage)"

text \<open>The loop and the test \<^verbatim>\<open>optind != argc\<close> after it; \<open>args\<close> is \<^verbatim>\<open>argv\<close> without
  the program name.\<close>

definition parse_args :: "platform \<Rightarrow> string list \<Rightarrow> outcome + options" where
  "parse_args pf args =
     (let (rets, rest) = getopt (posixly_correct pf) ''b:e:ps:'' [] args in
      case option_loop pf (initial_options pf) rets of
        Inl out \<Rightarrow> Inl out
      | Inr opts \<Rightarrow> if rest \<noteq> [] then Inl usage else Inr opts)"

subsection \<open>Enumerating the available CPUs\<close>

text \<open>\<^verbatim>\<open>for (int i = begin_core; i <= end_core; ++i) if (CPU_ISSET(i, &set)) cpus.push_back(i);\<close>\<close>

function enumerate_loop :: "int \<Rightarrow> int \<Rightarrow> cpu_set_t \<Rightarrow> int list \<Rightarrow> int list" where
  "enumerate_loop i hi cpuset cpus =
     (if i \<le> hi then
        enumerate_loop (i + 1) hi cpuset (if CPU_ISSET i cpuset then cpus @ [i] else cpus)
      else cpus)"
  by pat_completeness auto
termination
  by (relation "measure (\<lambda>(i, hi, cpuset, cpus). nat (hi + 1 - i))") auto

declare enumerate_loop.simps [simp del]

definition enumerate_cpus :: "options \<Rightarrow> cpu_set_t \<Rightarrow> int list" where
  "enumerate_cpus opts cpuset = enumerate_loop (begin_core opts) (end_core opts) cpuset []"

subsection \<open>Measuring one pair\<close>

text \<open>\<^verbatim>\<open>std::chrono::nanoseconds::max()\<close>\<close>

definition nanoseconds_max :: nanoseconds where
  "nanoseconds_max = 0x7FFFFFFFFFFFFFFF"

text \<open>\<^verbatim>\<open>std::min(a, b)\<close> on signed counts: \<open>b\<close> when \<open>b < a\<close>, otherwise \<open>a\<close>.\<close>

definition std_min :: "nanoseconds \<Rightarrow> nanoseconds \<Rightarrow> nanoseconds" where
  "std_min a b = (if b <s a then b else a)"

text \<open>Division of a duration by an integer: signed 64-bit division, truncating towards
  zero.\<close>

definition duration_div :: "nanoseconds \<Rightarrow> int \<Rightarrow> nanoseconds" where
  "duration_div d k = word_of_int (sint d sdiv k)"

text \<open>\<^verbatim>\<open>ts2 - ts1\<close> of sample \<open>m\<close>.\<close>

definition elapsed :: "platform \<Rightarrow> nat \<Rightarrow> nat \<Rightarrow> nat \<Rightarrow> nanoseconds" where
  "elapsed pf i j m = (let (ts1, ts2) = steady_clock_now pf i j m in ts2 - ts1)"

text \<open>The sampling loop of the controlling thread,
  \<^verbatim>\<open>for (int m = 0; m < nsamples; ++m) { ...; rtt = std::min(rtt, ts2 - ts1); }\<close>,
  started with \<^verbatim>\<open>rtt = nanoseconds::max()\<close>.\<close>

definition sample_loop :: "platform \<Rightarrow> int \<Rightarrow> nat \<Rightarrow> nat \<Rightarrow> nanoseconds" where
  "sample_loop pf n i j =
     fold (\<lambda>m rtt. std_min rtt (elapsed pf i j m)) [0..<nat n] nanoseconds_max"

text \<open>\<^verbatim>\<open>pinThread(cpu)\<close>: \<^verbatim>\<open>perror\<close> and \<^verbatim>\<open>exit(1)\<close> when \<^verbatim>\<open>sched_setaffinity\<close>
  fails.\<close>

definition perror :: "string \<Rightarrow> string \<Rightarrow> string" where
  "perror s msg = s @ '': '' @ msg @ ''\<newline>''"

definition pinThread :: "platform \<Rightarrow> int \<Rightarrow> outcome option" where
  "pinThread pf cpu =
     (case sched_setaffinity pf cpu of
        Some msg \<Rightarrow> Some (Exit 1 [] (perror ''sched_setaffinity'' msg))
      | None \<Rightarrow> None)"

text \<open>The body of the inner loop for the indices \<open>i\<close> and \<open>j\<close>: the responder thread
  pins itself to \<^verbatim>\<open>cpus[i]\<close>, the controlling thread to \<^verbatim>\<open>cpus[j]\<close>, the samples are
  taken, and the result is stored under \<^verbatim>\<open>{i, j}\<close> and \<^verbatim>\<open>{j, i}\<close>. The two keys are
  the loop indices (of type \<^verbatim>\<open>size_t\<close>) converted to \<^verbatim>\<open>int\<close>. The two threads pin
  themselves concurrently; either failure is \<^verbatim>\<open>exit(1)\<close> before anything is stored or
  printed, and the model reports the responder's failure first.\<close>

definition measure_pair ::
  "platform \<Rightarrow> int list \<Rightarrow> int \<Rightarrow> nat \<Rightarrow> nat \<Rightarrow> latency_map \<Rightarrow> outcome + latency_map" where
  "measure_pair pf cpus n i j data =
     (case pinThread pf (cpus ! i) of
        Some out \<Rightarrow> Inl out
      | None \<Rightarrow>
         (case pinThread pf (cpus ! j) of
            Some out \<Rightarrow> Inl out
          | None \<Rightarrow>
             (let rtt = sample_loop pf n i j;
                  data1 = data((int i, int j) \<mapsto> duration_div (duration_div rtt 2) 100);
                  data2 = data1((int j, int i) \<mapsto> duration_div (duration_div rtt 2) 100)
              in Inr data2)))"

text \<open>A \<^verbatim>\<open>for\<close> loop over the indices \<open>xs\<close> whose body can end the process.\<close>

fun for_loop :: "(nat \<Rightarrow> 's \<Rightarrow> outcome + 's) \<Rightarrow> nat list \<Rightarrow> 's \<Rightarrow> outcome + 's" where
  "for_loop body [] s = Inr s"
| "for_loop body (x # xs) s =
     (case body x s of Inl out \<Rightarrow> Inl out | Inr s' \<Rightarrow> for_loop body xs s')"

text \<open>\<^verbatim>\<open>for (size_t i = 0; i < cpus.size(); ++i) for (size_t j = i + 1; j < cpus.size(); ++j)\<close>\<close>

definition measure_all :: "platform \<Rightarrow> int list \<Rightarrow> int \<Rightarrow> outcome + latency_map" where
  "measure_all pf cpus n =
     for_loop
       (\<lambda>i. for_loop (\<lambda>j. measure_pair pf cpus n i j) [i + 1..<length cpus])
       [0..<length cpus] Map.empty"

subsection \<open>Printing\<close>

text \<open>\<^verbatim>\<open>operator<<\<close> for an integer: decimal digits, a minus sign when negative.\<close>

fun show_nat :: "nat \<Rightarrow> string" where
  "show_nat n =
     (if n < 10 then [''0123456789'' ! n]
      else show_nat (n div 10) @ [''0123456789'' ! (n mod 10)])"

declare show_nat.simps [simp del]

definition show_int :: "int \<Rightarrow> string" where
  "show_int k = (if k < 0 then CHR ''-'' # show_nat (nat (- k)) else show_nat (nat k))"

text \<open>\<^verbatim>\<open>std::setw(w)\<close> before one item: padded on the left with spaces to \<open>w\<close>
  characters, never cut.\<close>

definition setw :: "nat \<Rightarrow> string \<Rightarrow> string" where
  "setw w s = replicate (w - length s) CHR '' '' @ s"

text \<open>\<^verbatim>\<open>data[key]\<close>: \<^verbatim>\<open>std::map::operator[]\<close> inserts a value-initialised duration
  (zero) under a key that is absent, and returns the stored value.\<close>

definition subscript :: "latency_map \<Rightarrow> int \<times> int \<Rightarrow> nanoseconds \<times> latency_map" where
  "subscript data key =
     (case data key of
        None \<Rightarrow> (0, data(key \<mapsto> 0))
      | Some v \<Rightarrow> (v, data))"

text \<open>\<^verbatim>\<open>for (size_t i = 0; i < cpus.size(); ++i) std::cout << " " << std::setw(4) << cpus[i];\<close>\<close>

fun print_header_cells :: "int list \<Rightarrow> nat list \<Rightarrow> string" where
  "print_header_cells cpus [] = []"
| "print_header_cells cpus (i # is) =
     '' '' @ setw 4 (show_int (cpus ! i)) @ print_header_cells cpus is"

text \<open>The inner printing loop of row \<open>i\<close>:
  \<^verbatim>\<open>std::cout << " " << std::setw(4) << data[{i, j}].count();\<close>\<close>

fun print_cells :: "nat \<Rightarrow> nat list \<Rightarrow> latency_map \<Rightarrow> string \<times> latency_map" where
  "print_cells i [] data = ([], data)"
| "print_cells i (j # js) data =
     (let (v, data1) = subscript data (int i, int j);
          (out, data2) = print_cells i js data1
      in ('' '' @ setw 4 (show_int (sint v)) @ out, data2))"

fun print_rows :: "int list \<Rightarrow> nat list \<Rightarrow> latency_map \<Rightarrow> string \<times> latency_map" where
  "print_rows cpus [] data = ([], data)"
| "print_rows cpus (i # is) data =
     (let (cells, data1) = print_cells i [0..<length cpus] data;
          (out, data2) = print_rows cpus is data1
      in (setw 4 (show_int (cpus ! i)) @ cells @ ''\<newline>'' @ out, data2))"

text \<open>The table: the header line and one line for each index.\<close>

definition print_table :: "int list \<Rightarrow> latency_map \<Rightarrow> string \<times> latency_map" where
  "print_table cpus data =
     (let (rows, data1) = print_rows cpus [0..<length cpus] data
      in (setw 4 ''CPU'' @ print_header_cells cpus [0..<length cpus] @ ''\<newline>'' @ rows, data1))"

definition plot_prologue :: string where
  \<open>plot_prologue =
     ''set title "Inter-core one-way data latency between CPU cores"\<newline>'' @
     ''set xlabel "CPU"\<newline>'' @
     ''set ylabel "CPU"\<newline>'' @
     ''set cblabel "Latency (ns)"\<newline>'' @
     ''$data << EOD\<newline>''\<close>

definition plot_epilogue :: string where
  \<open>plot_epilogue =
     ''EOD\<newline>'' @
     ''plot '$data' matrix rowheaders columnheaders using 2:1:3 with image\<newline>''\<close>

text \<open>Everything written to \<^verbatim>\<open>std::cout\<close>, and the map as the printing leaves it.\<close>

definition print_all :: "bool \<Rightarrow> int list \<Rightarrow> latency_map \<Rightarrow> string \<times> latency_map" where
  "print_all plt cpus data =
     (let (table, data1) = print_table cpus data
      in ((if plt then plot_prologue else []) @ table @ (if plt then plot_epilogue else []),
          data1))"

subsection \<open>\<^verbatim>\<open>main\<close>\<close>

definition main :: "platform \<Rightarrow> string list \<Rightarrow> outcome" where
  "main pf args =
     (case parse_args pf args of
        Inl out \<Rightarrow> out
      | Inr opts \<Rightarrow>
         (case sched_getaffinity pf of
            Inl msg \<Rightarrow> Exit 1 [] (perror ''sched_getaffinity'' msg)
          | Inr cpuset \<Rightarrow>
             (let cpus = enumerate_cpus opts cpuset in
              case measure_all pf cpus (nsamples opts) of
                Inl out \<Rightarrow> out
              | Inr data \<Rightarrow> Exit 0 (fst (print_all (plot opts) cpus data)) [])))"

subsection \<open>Notions used to state the properties\<close>

text \<open>The value stored for the loop indices \<open>i\<close> and \<open>j\<close>: \<^verbatim>\<open>rtt / 2 / 100\<close>.\<close>

definition one_way :: "platform \<Rightarrow> int \<Rightarrow> nat \<Rightarrow> nat \<Rightarrow> nanoseconds" where
  "one_way pf n i j = duration_div (duration_div (sample_loop pf n i j) 2) 100"

text \<open>The value any key can hold after the measurement: that of the smaller and the
  larger component, in this order.\<close>

definition entry :: "platform \<Rightarrow> int \<Rightarrow> int \<times> int \<Rightarrow> nanoseconds" where
  "entry pf n key = one_way pf n (nat (min (fst key) (snd key))) (nat (max (fst key) (snd key)))"

text \<open>The keys made of two different positions of a list of \<open>len\<close> CPUs.\<close>

definition off_diagonal :: "nat \<Rightarrow> (int \<times> int) set" where
  "off_diagonal len = {(int a, int b) | a b. a < len \<and> b < len \<and> a \<noteq> b}"

definition well_filled :: "platform \<Rightarrow> int \<Rightarrow> nat \<Rightarrow> latency_map \<Rightarrow> bool" where
  "well_filled pf n len data =
     (\<forall>key v. data key = Some v \<longrightarrow> key \<in> off_diagonal len \<and> v = entry pf n key)"

text \<open>What \<^verbatim>\<open>std::chrono::steady_clock\<close> promises for the samples of one measurement:
  a reading is not negative and the clock does not go back between \<^verbatim>\<open>ts1\<close> and
  \<^verbatim>\<open>ts2\<close>.\<close>

definition steady :: "platform \<Rightarrow> int \<Rightarrow> nat \<Rightarrow> nat \<Rightarrow> bool" where
  "steady pf n i j =
     (\<forall>m\<in>{0..<nat n}. 0 \<le> sint (fst (steady_clock_now pf i j m)) \<and>
        sint (fst (steady_clock_now pf i j m)) \<le> sint (snd (steady_clock_now pf i j m)))"

text \<open>The duration a key stands for when the table is printed: the stored value, zero for
  an absent key.\<close>

definition cell :: "latency_map \<Rightarrow> int \<times> int \<Rightarrow> nanoseconds" where
  "cell data key = (case data key of None \<Rightarrow> 0 | Some v \<Rightarrow> v)"

text \<open>The map after \<^verbatim>\<open>operator[]\<close> has been applied to every key of \<open>keys\<close>.\<close>

definition filled :: "latency_map \<Rightarrow> (int \<times> int) set \<Rightarrow> latency_map" where
  "filled data keys = (\<lambda>key. if key \<in> keys then Some (cell data key) else data key)"

text \<open>All pairs of positions of a list of \<open>len\<close> CPUs.\<close>

definition grid :: "nat \<Rightarrow> (int \<times> int) set" where
  "grid len = {(int i, int j) | i j. i < len \<and> j < len}"

text \<open>The table as the specification describes it, line by line: \<^verbatim>\<open>CPU\<close> and every
  core id in a field of four characters, each id after one space; then for each
  position the core id and the count of the duration to every position.\<close>

definition header_line :: "int list \<Rightarrow> string" where
  "header_line cpus = setw 4 ''CPU'' @ concat (map (\<lambda>c. '' '' @ setw 4 (show_int c)) cpus)"

definition row_line :: "int list \<Rightarrow> (int \<times> int \<Rightarrow> nanoseconds) \<Rightarrow> nat \<Rightarrow> string" where
  "row_line cpus f i =
     setw 4 (show_int (cpus ! i)) @
     concat (map (\<lambda>j. '' '' @ setw 4 (show_int (sint (f (int i, int j))))) [0..<length cpus])"

definition table_lines :: "int list \<Rightarrow> (int \<times> int \<Rightarrow> nanoseconds) \<Rightarrow> string list" where
  "table_lines cpus f = header_line cpus # map (row_line cpus f) [0..<length cpus]"

text \<open>Lines and the bytes of a stream: every line ends with a newline.\<close>

definition unlines :: "string list \<Rightarrow> string" where
  "unlines ls = concat (map (\<lambda>l. l @ ''\<newline>'') ls)"

fun split_lines :: "string \<Rightarrow> string \<Rightarrow> string list" where
  "split_lines cur [] = (if cur = [] then [] else [cur])"
| "split_lines cur (c # cs) =
     (if c = CHR ''\<newline>'' then cur # split_lines [] cs else split_lines (cur @ [c]) cs)"

text \<open>A value returned by \<^verbatim>\<open>getopt\<close> that has its own \<^verbatim>\<open>case\<close> in the \<^verbatim>\<open>switch\<close>, and
  one whose \<^verbatim>\<open>case\<close> runs without an exception.\<close>

definition handled :: "char \<times> string \<Rightarrow> bool" where
  "handled ret = (fst ret \<in> set ''psbe'')"

definition parses :: "char \<times> string \<Rightarrow> bool" where
  "parses ret = (fst ret = CHR ''p'' \<or> \<not> isl (stoi (snd ret)))"

subsection \<open>A concrete platform\<close>

text \<open>A machine with \<^verbatim>\<open>CPU_SETSIZE\<close> 1024 and GNU \<^verbatim>\<open>getopt\<close>, where the process may run
  on the CPUs 2, 4 and 7 and every pinning succeeds. A batch of 100 handshakes between
  the positions \<open>i\<close> and \<open>j\<close> takes 10000 + 2000 (i + j) ns, and 600 ns more in every
  sample but the second.\<close>

definition example_platform :: platform where
  "example_platform =
     \<lparr>CPU_SETSIZE = 1024, posixly_correct = False,
      sched_getaffinity = Inr {2, 4, 7},
      sched_setaffinity = (\<lambda>cpu. None),
      steady_clock_now = (\<lambda>i j m.
        (5000, 5000 + 10000 + 2000 * (of_nat i + of_nat j) + (if m = 1 then 0 else 600)))\<rparr>"

text \<open>The same machine when \<^verbatim>\<open>sched_getaffinity\<close> fails.\<close>

definition failing_platform :: platform where
  "failing_platform = example_platform\<lparr>sched_getaffinity := Inl ''Operation not permitted''\<rparr>"

text \<open>The map the measurement leaves on this machine for the CPUs 2, 4 and 7, with two
  samples and with one sample.\<close>

definition example_data :: latency_map where
  "example_data = Map.empty((0, 1) \<mapsto> 60, (1, 0) \<mapsto> 60, (0, 2) \<mapsto> 70, (2, 0) \<mapsto> 70,
     (1, 2) \<mapsto> 80, (2, 1) \<mapsto> 80)"

definition example_single :: latency_map where
  "example_single = Map.empty((0, 1) \<mapsto> 63, (1, 0) \<mapsto> 63, (0, 2) \<mapsto> 73, (2, 0) \<mapsto> 73,
     (1, 2) \<mapsto> 83, (2, 1) \<mapsto> 83)"

section \<open>Properties\<close>

subsection \<open>The enumeration loop\<close>

lemma enumerate_loop_filter:
  "enumerate_loop i hi cpuset cpus = cpus @ filter (\<lambda>c. CPU_ISSET c cpuset) [i..hi]"
proof (induction i hi cpuset cpus rule: enumerate_loop.induct)
  case (1 i hi cpuset cpus)
  show ?case
  proof (cases "i \<le> hi")
    case True
    then have "[i..hi] = i # [i + 1..hi]" by (simp add: upto_rec1)
    with True 1 show ?thesis by (subst enumerate_loop.simps) simp
  next
    case False
    then show ?thesis by (subst enumerate_loop.simps) simp
  qed
qed


subsection \<open>The sampling loop and the division\<close>

lemma sint_std_min: "sint (std_min a b) = min (sint a) (sint b)"
  by (simp add: std_min_def word_sless_alt min_def)

lemma sint_nanoseconds_range: "- (2 ^ 63) \<le> sint (d :: nanoseconds) \<and> sint d < 2 ^ 63"
  using sint_range_size [of d] by (simp add: word_size)

lemma sint_nanoseconds_max: "sint nanoseconds_max = 2 ^ 63 - 1"
  by (simp add: nanoseconds_max_def)

lemma sint_le_max: "sint (d :: nanoseconds) \<le> sint nanoseconds_max"
  using sint_nanoseconds_range [of d] by (simp add: sint_nanoseconds_max)

lemma sint_duration_div:
  "sint (duration_div d k) = sint d sdiv k" if "k \<noteq> - 1"
proof -
  have r: "- (2 ^ 63) \<le> sint d \<and> sint d < 2 ^ 63" by (rule sint_nanoseconds_range)
  have a: "sint d sdiv k \<in> {- \<bar>sint d\<bar>..\<bar>sint d\<bar>}" by (rule sdiv_int_range)
  have "sint d sdiv k \<noteq> 2 ^ 63"
  proof
    assume e: "sint d sdiv k = 2 ^ 63"
    with a r have "sint d = - (2 ^ 63)" by auto
    with e have "(- (2 ^ 63) :: int) sdiv k = - (- (2 ^ 63))" by simp
    then have "k = - 1" by (subst (asm) int_sdiv_negated_is_minus1) simp_all
    with that show False by simp
  qed
  with a r have "- (2 ^ 63) \<le> sint d sdiv k \<and> sint d sdiv k < 2 ^ 63" by auto
  then show ?thesis
    by (simp add: duration_div_def sint_sbintrunc' signed_take_bit_int_eq_self)
qed

lemma fold_std_min:
  "sint (fold (\<lambda>m rtt. std_min rtt (f m)) ms r) = Min (insert (sint r) ((\<lambda>m. sint (f m)) ` set ms))"
proof (induction ms arbitrary: r)
  case Nil
  then show ?case by simp
next
  case (Cons m ms)
  have "Min (insert (min (sint r) (sint (f m))) ((\<lambda>m. sint (f m)) ` set ms))
      = Min (insert (sint r) (insert (sint (f m)) ((\<lambda>m. sint (f m)) ` set ms)))"
    by (cases "set ms = {}") (simp_all add: min.assoc)
  with Cons show ?case by (simp add: sint_std_min)
qed

lemma sint_sample_loop:
  assumes "1 \<le> n"
  shows "sint (sample_loop pf n i j) = Min ((\<lambda>m. sint (elapsed pf i j m)) ` {0..<nat n})"
proof -
  let ?S = "(\<lambda>m. sint (elapsed pf i j m)) ` {0..<nat n}"
  from assms have ne: "?S \<noteq> {}" by simp
  have "Min ?S \<in> ?S" using ne by (intro Min_in) simp_all
  then obtain m where "Min ?S = sint (elapsed pf i j m)" by auto
  then have "Min ?S \<le> sint nanoseconds_max" by (simp add: sint_le_max)
  then have "Min (insert (sint nanoseconds_max) ?S) = Min ?S"
    using ne by (simp add: min_absorb2)
  then show ?thesis by (simp add: sample_loop_def fold_std_min)
qed

lemma sdiv_nonneg: "0 \<le> (a::int) \<Longrightarrow> 0 < b \<Longrightarrow> a sdiv b = a div b"
  by (simp add: signed_divide_int_def sgn_if)



subsection \<open>The measurement loops\<close>

lemma for_loop_invariant:
  assumes "for_loop body xs s = Inr s'" and "P s"
    and "\<And>x t t'. x \<in> set xs \<Longrightarrow> P t \<Longrightarrow> body x t = Inr t' \<Longrightarrow> P t'"
  shows "P s'"
  using assms
proof (induction xs arbitrary: s)
  case Nil
  then show ?case by simp
next
  case (Cons x xs)
  from Cons.prems(1) obtain t where t: "body x s = Inr t" and r: "for_loop body xs t = Inr s'"
    by (auto split: sum.splits)
  have "P t" by (rule Cons.prems(3) [of x s t]) (simp_all add: t Cons.prems(2))
  moreover have "P u'" if "y \<in> set xs" "P u" "body y u = Inr u'" for y u u'
    using Cons.prems(3) [of y u u'] that by simp
  ultimately show ?case using r Cons.IH by blast
qed

lemma for_loop_covers:
  assumes "for_loop body xs s = Inr s'"
    and "\<And>x t t'. x \<in> set xs \<Longrightarrow> body x t = Inr t' \<Longrightarrow> dom t \<subseteq> dom t' \<and> K x \<subseteq> dom t'"
  shows "dom s \<subseteq> dom s' \<and> (\<forall>x\<in>set xs. K x \<subseteq> dom s')"
  using assms
proof (induction xs arbitrary: s)
  case Nil
  then show ?case by simp
next
  case (Cons x xs)
  from Cons.prems(1) obtain t where t: "body x s = Inr t" and r: "for_loop body xs t = Inr s'"
    by (auto split: sum.splits)
  have a: "dom s \<subseteq> dom t \<and> K x \<subseteq> dom t"
    by (rule Cons.prems(2) [of x s t]) (simp_all add: t)
  have "dom u \<subseteq> dom u' \<and> K y \<subseteq> dom u'" if "y \<in> set xs" "body y u = Inr u'" for y u u'
    using Cons.prems(2) [of y u u'] that by simp
  with r Cons.IH have b: "dom t \<subseteq> dom s' \<and> (\<forall>y\<in>set xs. K y \<subseteq> dom s')" by blast
  from a b have "dom s \<subseteq> dom s'" "K x \<subseteq> dom s'" by blast+
  with b show ?case by simp
qed

lemma measure_pair_Inr:
  assumes "measure_pair pf cpus n i j data = Inr data'"
  shows "data' = data((int i, int j) \<mapsto> one_way pf n i j, (int j, int i) \<mapsto> one_way pf n i j)"
  using assms
  by (auto simp: measure_pair_def one_way_def Let_def split: option.splits)

lemma measure_pair_well_filled:
  assumes "measure_pair pf cpus n i j data = Inr data'" "well_filled pf n len data"
    "i < j" "j < len"
  shows "well_filled pf n len data'"
  using assms(2-) unfolding measure_pair_Inr [OF assms(1)] well_filled_def off_diagonal_def entry_def
  by (auto simp: min_def max_def)

lemma measure_all_well_filled:
  assumes "measure_all pf cpus n = Inr data"
  shows "well_filled pf n (length cpus) data"
proof -
  let ?P = "well_filled pf n (length cpus)"
  have inner: "?P t'"
    if "i \<in> set [0..<length cpus]" and t: "?P t"
      and l: "for_loop (measure_pair pf cpus n i) [i + 1..<length cpus] t = Inr t'" for i t t'
  proof (rule for_loop_invariant [where P = ?P, OF l t])
    fix j u u'
    assume "j \<in> set [i + 1..<length cpus]" "?P u" "measure_pair pf cpus n i j u = Inr u'"
    then show "?P u'"
      using measure_pair_well_filled [of pf cpus n i j u u' "length cpus"] by simp
  qed
  have start: "?P Map.empty" by (simp add: well_filled_def)
  from assms have "for_loop (\<lambda>i. for_loop (measure_pair pf cpus n i) [i + 1..<length cpus])
      [0..<length cpus] Map.empty = Inr data"
    by (simp add: measure_all_def)
  from for_loop_invariant [where P = ?P, OF this start inner] show ?thesis .
qed

lemma measure_all_covers:
  assumes "measure_all pf cpus n = Inr data" "i < j" "j < length cpus"
  shows "(int i, int j) \<in> dom data \<and> (int j, int i) \<in> dom data"
proof -
  let ?K = "\<lambda>i. {(int i, int j) | j. i < j \<and> j < length cpus} \<union> {(int j, int i) | j. i < j \<and> j < length cpus}"
  have inner: "dom t \<subseteq> dom t' \<and> ?K i \<subseteq> dom t'"
    if l: "for_loop (measure_pair pf cpus n i) [i + 1..<length cpus] t = Inr t'" for i t t'
  proof -
    have "dom t \<subseteq> dom t' \<and> (\<forall>j\<in>set [i + 1..<length cpus]. {(int i, int j), (int j, int i)} \<subseteq> dom t')"
    proof (rule for_loop_covers [where K = "\<lambda>j. {(int i, int j), (int j, int i)}", OF l])
      fix j u u'
      assume "j \<in> set [i + 1..<length cpus]" and m: "measure_pair pf cpus n i j u = Inr u'"
      from measure_pair_Inr [OF m]
      show "dom u \<subseteq> dom u' \<and> {(int i, int j), (int j, int i)} \<subseteq> dom u'" by auto
    qed
    then show ?thesis by auto
  qed
  from assms(1) have "for_loop (\<lambda>i. for_loop (measure_pair pf cpus n i) [i + 1..<length cpus])
      [0..<length cpus] Map.empty = Inr data"
    by (simp add: measure_all_def)
  from for_loop_covers [where K = ?K, OF this inner]
  have "\<forall>i\<in>set [0..<length cpus]. ?K i \<subseteq> dom data" by simp
  with assms(2,3) have "?K i \<subseteq> dom data" by simp
  with assms(2,3) show ?thesis by blast
qed

lemma measure_all_entry:
  assumes "measure_all pf cpus n = Inr data" "i < j" "j < length cpus"
  shows "data (int i, int j) = Some (one_way pf n i j)"
    and "data (int j, int i) = Some (one_way pf n i j)"
proof -
  from measure_all_covers [OF assms] obtain v w
    where v: "data (int i, int j) = Some v" and w: "data (int j, int i) = Some w" by auto
  from measure_all_well_filled [OF assms(1)] v w
  have "v = entry pf n (int i, int j)" "w = entry pf n (int j, int i)"
    by (auto simp: well_filled_def)
  with assms(2) v w show "data (int i, int j) = Some (one_way pf n i j)"
    and "data (int j, int i) = Some (one_way pf n i j)"
    by (simp_all add: entry_def min_def max_def)
qed


subsection \<open>The printing loops\<close>

lemma subscript_cell: "subscript data key = (cell data key, filled data {key})"
  by (auto simp: subscript_def cell_def filled_def split: option.splits)

lemma cell_filled [simp]: "cell (filled data keys) = cell data"
  by (auto simp: cell_def filled_def fun_eq_iff)

lemma filled_filled [simp]: "filled (filled data A) B = filled data (A \<union> B)"
  by (auto simp: filled_def fun_eq_iff cell_def)

lemma filled_empty [simp]: "filled data {} = data"
  by (simp add: filled_def)

lemma print_cells_eq:
  "print_cells i js data =
     (concat (map (\<lambda>j. '' '' @ setw 4 (show_int (sint (cell data (int i, int j))))) js),
      filled data ((\<lambda>j. (int i, int j)) ` set js))"
proof (induction js arbitrary: data)
  case Nil
  then show ?case by simp
next
  case (Cons j js)
  have "{(int i, int j)} \<union> (\<lambda>j. (int i, int j)) ` set js = insert (int i, int j) ((\<lambda>j. (int i, int j)) ` set js)"
    by simp
  then show ?case by (simp add: subscript_cell Cons.IH)
qed

lemma print_header_cells_eq:
  "print_header_cells cpus is = concat (map (\<lambda>i. '' '' @ setw 4 (show_int (cpus ! i))) is)"
  by (induction "is") simp_all

lemma print_rows_eq:
  "print_rows cpus is data =
     (concat (map (\<lambda>i. row_line cpus (cell data) i @ ''\<newline>'') is),
      filled data (\<Union>i\<in>set is. (\<lambda>j. (int i, int j)) ` {0..<length cpus}))"
proof (induction "is" arbitrary: data)
  case Nil
  then show ?case by simp
next
  case (Cons i "is")
  show ?case by (simp add: print_cells_eq Cons.IH row_line_def)
qed

lemma grid_eq: "(\<Union>i\<in>{0..<len}. (\<lambda>j. (int i, int j)) ` {0..<len}) = grid len"
  by (auto simp: grid_def)

lemma print_table_eq:
  "print_table cpus data = (unlines (table_lines cpus (cell data)), filled data (grid (length cpus)))"
proof -
  have "map (\<lambda>i. '' '' @ setw 4 (show_int (cpus ! i))) [0..<length cpus]
      = map (\<lambda>c. '' '' @ setw 4 (show_int c)) cpus"
    by (rule nth_equalityI) simp_all
  then show ?thesis
    by (simp add: print_table_def print_rows_eq print_header_cells_eq grid_eq unlines_def
        table_lines_def header_line_def map_concat o_def)
qed

lemma split_lines_line:
  "CHR ''\<newline>'' \<notin> set l \<Longrightarrow> split_lines cur (l @ CHR ''\<newline>'' # rest) = (cur @ l) # split_lines [] rest"
  by (induction l arbitrary: cur) auto

lemma split_lines_unlines:
  "\<forall>l\<in>set ls. CHR ''\<newline>'' \<notin> set l \<Longrightarrow> split_lines [] (unlines ls @ rest) = ls @ split_lines [] rest"
proof (induction ls)
  case Nil
  then show ?case by (simp add: unlines_def)
next
  case (Cons l ls)
  then show ?case using split_lines_line [of l "[]" "unlines ls @ rest"]
    by (simp add: unlines_def)
qed

lemma show_nat_digits: "set (show_nat n) \<subseteq> set ''0123456789''"
proof (induction n rule: show_nat.induct)
  case (1 n)
  have d: "''0123456789'' ! k \<in> set ''0123456789''" if "k < 10" for k
    using that by (intro nth_mem) simp
  show ?case
  proof (cases "n < 10")
    case True
    with d [of n] show ?thesis by (subst show_nat.simps) simp
  next
    case False
    with 1 d [of "n mod 10"] show ?thesis by (subst show_nat.simps) simp
  qed
qed

lemma newline_show_int: "CHR ''\<newline>'' \<notin> set (show_int k)"
  using show_nat_digits [of "nat k"] show_nat_digits [of "nat (- k)"]
  by (auto simp: show_int_def)

lemma newline_setw: "CHR ''\<newline>'' \<notin> set s \<Longrightarrow> CHR ''\<newline>'' \<notin> set (setw w s)"
  by (simp add: setw_def)

lemma newline_cell: "CHR ''\<newline>'' \<notin> set ('' '' @ setw 4 (show_int k))"
  by (simp add: newline_setw newline_show_int)

lemma newline_header_line: "CHR ''\<newline>'' \<notin> set (header_line cpus)"
proof -
  have "CHR ''\<newline>'' \<notin> set (setw 4 ''CPU'')" by (simp add: setw_def)
  moreover have "CHR ''\<newline>'' \<notin> set (concat (map (\<lambda>c. '' '' @ setw 4 (show_int c)) cpus))"
    using newline_cell by (induction cpus) simp_all
  ultimately show ?thesis by (simp add: header_line_def)
qed

lemma newline_row_line: "CHR ''\<newline>'' \<notin> set (row_line cpus f i)"
proof -
  have "CHR ''\<newline>'' \<notin> set (concat (map (\<lambda>j. '' '' @ setw 4 (show_int (sint (f (int i, int j))))) js))" for js
    using newline_cell by (induction js) simp_all
  then show ?thesis
    by (simp add: row_line_def newline_setw newline_show_int)
qed

lemma newline_table_lines: "\<forall>l\<in>set (table_lines cpus f). CHR ''\<newline>'' \<notin> set l"
  by (simp add: table_lines_def newline_header_line newline_row_line)


subsection \<open>The option loop\<close>

lemma option_loop_usage:
  assumes "\<forall>r\<in>set pre. handled r \<and> parses r" "\<not> handled u"
  shows "option_loop pf opts (pre @ u # post) = Inl usage"
  using assms
proof (induction pre arbitrary: opts)
  case Nil
  then show ?case by (cases u) (simp add: handled_def)
next
  case (Cons r pre)
  obtain c a where r: "r = (c, a)" by (cases r)
  from Cons.prems r have h: "c \<in> set ''psbe''" and p: "c = CHR ''p'' \<or> \<not> isl (stoi a)"
    by (simp_all add: handled_def parses_def)
  from Cons have IH: "option_loop pf opts' (pre @ u # post) = Inl usage" for opts' by simp
  from h p show ?case
    by (cases "stoi a") (auto simp: r IH)
qed

lemma option_loop_Inr:
  assumes "\<forall>r\<in>set rets. handled r \<and> parses r"
  shows "\<exists>opts'. option_loop pf opts rets = Inr opts'"
  using assms
proof (induction rets arbitrary: opts)
  case Nil
  then show ?case by simp
next
  case (Cons r rets)
  obtain c a where r: "r = (c, a)" by (cases r)
  from Cons.prems r have h: "c \<in> set ''psbe''" and p: "c = CHR ''p'' \<or> \<not> isl (stoi a)"
    by (simp_all add: handled_def parses_def)
  from Cons have IH: "\<exists>opts''. option_loop pf opts' rets = Inr opts''" for opts' by simp
  from h p show ?case
    by (cases "stoi a") (auto simp: r IH)
qed

lemma option_loop_stoi_throws:
  assumes "c \<in> set ''sbe''" "stoi optarg = Inl e"
  shows "option_loop pf opts ((c, optarg) # rets) = Inl (Terminate e)"
  using assms by auto

lemma option_loop_terminate:
  assumes "\<forall>r\<in>set pre. handled r" "c \<in> set ''sbe''" "stoi optarg = Inl e"
  shows "\<exists>e'. option_loop pf opts (pre @ (c, optarg) # post) = Inl (Terminate e')"
  using assms(1)
proof (induction pre arbitrary: opts)
  case Nil
  then show ?case using option_loop_stoi_throws [OF assms(2,3)] by simp
next
  case (Cons r pre)
  obtain d a where r: "r = (d, a)" by (cases r)
  from Cons.prems r have h: "d \<in> set ''psbe''" by (simp add: handled_def)
  from Cons have IH: "\<exists>e'. option_loop pf opts' (pre @ (c, optarg) # post) = Inl (Terminate e')" for opts'
    by simp
  from h show ?case
    by (cases "stoi a") (auto simp: r IH)
qed

lemma option_loop_bounds:
  assumes "option_loop pf opts rets = Inr opts'" "0 \<le> begin_core opts" "end_core opts \<le> CPU_SETSIZE pf"
  shows "0 \<le> begin_core opts' \<and> end_core opts' \<le> CPU_SETSIZE pf"
  using assms
proof (induction rets arbitrary: opts)
  case Nil
  then show ?case by simp
next
  case (Cons r rets)
  obtain c a where r: "r = (c, a)" by (cases r)
  show ?case
    using Cons.prems unfolding r
    by (auto split: if_splits sum.splits dest!: Cons.IH)
qed

lemma main_usage:
  assumes "getopt (posixly_correct pf) ''b:e:ps:'' [] args = (rets, rest)"
    and "(\<exists>r\<in>set rets. \<not> handled r) \<or> rest \<noteq> []"
    and "\<forall>r\<in>set (takeWhile handled rets). parses r"
  shows "main pf args = usage"
proof (cases "\<exists>r\<in>set rets. \<not> handled r")
  case True
  then have "dropWhile handled rets \<noteq> []" by simp
  then obtain u post where d: "dropWhile handled rets = u # post" by (cases "dropWhile handled rets") auto
  then have u: "\<not> handled u" using hd_dropWhile [of handled rets] by auto
  have pre: "\<forall>r\<in>set (takeWhile handled rets). handled r \<and> parses r"
    using assms(3) by (auto dest: set_takeWhileD)
  have "rets = takeWhile handled rets @ u # post" using d takeWhile_dropWhile_id [of handled rets] by simp
  with option_loop_usage [OF pre u] have "option_loop pf (initial_options pf) rets = Inl usage"
    by metis
  with assms(1) show ?thesis by (simp add: main_def parse_args_def)
next
  case False
  then have t: "takeWhile handled rets = rets" by simp
  with assms(3) False have "\<forall>r\<in>set rets. handled r \<and> parses r" by auto
  from option_loop_Inr [OF this] obtain opts' where "option_loop pf (initial_options pf) rets = Inr opts'"
    by blast
  moreover from False assms(2) have "rest \<noteq> []" by simp
  ultimately show ?thesis using assms(1) by (simp add: main_def parse_args_def)
qed

lemma main_terminate:
  assumes "getopt (posixly_correct pf) ''b:e:ps:'' [] args = (rets, rest)"
    and "k < length rets" "rets ! k = (c, optarg)" "c \<in> set ''sbe''" "stoi optarg = Inl e"
    and "\<forall>r\<in>set (take k rets). handled r"
  shows "\<exists>e'. main pf args = Terminate e'"
proof -
  from assms(2,3) have "rets = take k rets @ (c, optarg) # drop (Suc k) rets"
    by (metis id_take_nth_drop)
  with option_loop_terminate [OF assms(6,4,5)]
  obtain e' where "option_loop pf (initial_options pf) rets = Inl (Terminate e')" by metis
  with assms(1) show ?thesis by (simp add: main_def parse_args_def)
qed


subsection \<open>The measurement on the concrete platform\<close>

lemma example_measure_all: "measure_all example_platform [2, 4, 7] 2 = Inr example_data"
  by (simp add: measure_all_def measure_pair_def pinThread_def example_platform_def
      sample_loop_def elapsed_def std_min_def duration_div_def nanoseconds_max_def upt_rec
      word_sless_alt example_data_def)

lemma example_measure_one: "measure_all example_platform [2, 4, 7] 1 = Inr example_single"
  by (simp add: example_single_def add: measure_all_def measure_pair_def pinThread_def example_platform_def
      sample_loop_def elapsed_def std_min_def duration_div_def nanoseconds_max_def upt_rec
      word_sless_alt)

lemma example_steady: "steady example_platform 2 0 1" "steady example_platform 2 0 2"
  "steady example_platform 1 0 1"
  by (simp_all add: steady_def example_platform_def atLeastLessThan_upt upt_rec
      del: set_upt)

lemma example_min: "Min ((\<lambda>m. sint (elapsed example_platform 0 1 m)) ` {0..<nat 2}) = 12000"
  by (simp add: elapsed_def example_platform_def atLeastLessThan_upt upt_rec del: set_upt)

subsection \<open>A steady clock\<close>

lemma sint_elapsed:
  assumes "0 \<le> sint (fst (steady_clock_now pf i j m))"
    "sint (fst (steady_clock_now pf i j m)) \<le> sint (snd (steady_clock_now pf i j m))"
  shows "sint (elapsed pf i j m)
     = sint (snd (steady_clock_now pf i j m)) - sint (fst (steady_clock_now pf i j m))"
proof -
  obtain ts1 ts2 where c: "steady_clock_now pf i j m = (ts1, ts2)" by (cases "steady_clock_now pf i j m")
  from sint_nanoseconds_range [of ts2] assms c
  have "- (2 ^ 63) \<le> sint ts2 - sint ts1 \<and> sint ts2 - sint ts1 < 2 ^ 63" by simp
  then show ?thesis
    by (simp add: elapsed_def c sint_word_diff signed_take_bit_int_eq_self)
qed

lemma steady_elapsed:
  assumes "steady pf n i j" "m < nat n"
  shows "0 \<le> sint (elapsed pf i j m)"
  using assms sint_elapsed [of pf i j m] by (simp add: steady_def)

lemma steady_sample_loop:
  assumes "steady pf n i j"
  shows "0 \<le> sint (sample_loop pf n i j)"
proof -
  have "\<forall>x\<in>insert (sint nanoseconds_max) ((\<lambda>m. sint (elapsed pf i j m)) ` set [0..<nat n]). 0 \<le> x"
    using steady_elapsed [OF assms] by (auto simp: sint_nanoseconds_max)
  then show ?thesis
    unfolding sample_loop_def fold_std_min by (subst Min_ge_iff) simp_all
qed

lemma sint_one_way: "sint (one_way pf n i j) = sint (sample_loop pf n i j) sdiv 2 sdiv 100"
  by (simp add: one_way_def sint_duration_div)

lemma steady_one_way:
  assumes "steady pf n i j"
  shows "0 \<le> sint (one_way pf n i j)"
    and "sint (one_way pf n i j) = sint (sample_loop pf n i j) div 2 div 100"
proof -
  from steady_sample_loop [OF assms] have a: "0 \<le> sint (sample_loop pf n i j)" .
  then have b: "sint (sample_loop pf n i j) sdiv 2 = sint (sample_loop pf n i j) div 2"
    by (simp add: sdiv_nonneg)
  from a have c: "0 \<le> sint (sample_loop pf n i j) div 2" by simp
  then have d: "sint (sample_loop pf n i j) div 2 sdiv 100 = sint (sample_loop pf n i j) div 2 div 100"
    by (simp add: sdiv_nonneg)
  from b d show "sint (one_way pf n i j) = sint (sample_loop pf n i j) div 2 div 100"
    by (simp add: sint_one_way)
  with c show "0 \<le> sint (one_way pf n i j)"
    by (simp add: pos_imp_zdiv_nonneg_iff)
qed

lemma measure_all_dom:
  assumes "measure_all pf cpus n = Inr data"
  shows "dom data = off_diagonal (length cpus)"
proof
  from measure_all_well_filled [OF assms] show "dom data \<subseteq> off_diagonal (length cpus)"
    by (auto simp: well_filled_def)
next
  show "off_diagonal (length cpus) \<subseteq> dom data"
  proof
    fix key assume "key \<in> off_diagonal (length cpus)"
    then obtain a b where k: "key = (int a, int b)" and ab: "a < length cpus" "b < length cpus" "a \<noteq> b"
      by (auto simp: off_diagonal_def)
    show "key \<in> dom data"
    proof (cases "a < b")
      case True
      with measure_all_covers [OF assms, of a b] ab k show ?thesis by simp
    next
      case False
      with ab have "b < a" by simp
      with measure_all_covers [OF assms, of b a] ab k show ?thesis by simp
    qed
  qed
qed

subsection \<open>The printed text\<close>

lemma show_nat_small: "n < 10 \<Longrightarrow> show_nat n = [''0123456789'' ! n]"
  by (subst show_nat.simps) simp

lemma show_nat_large:
  "10 \<le> n \<Longrightarrow> show_nat n = show_nat (n div 10) @ [''0123456789'' ! (n mod 10)]"
  by (subst show_nat.simps) simp

lemma show_int_0: "show_int 0 = ''0''"
  by (simp add: show_int_def show_nat_small)

lemma show_int_1: "show_int 1 = ''1''"
  by (simp add: show_int_def show_nat_small)

lemma header_line_two: "header_line [0, 1] = '' CPU    0    1''"
  by (simp add: header_line_def setw_def show_int_0 show_int_1 numeral_3_eq_3)

lemma zero_cell: "'' '' @ setw 4 (show_int (sint (0 :: nanoseconds))) = ''    0''"
  by (simp add: setw_def show_int_0 numeral_3_eq_3)

lemma split_lines_table:
  "split_lines [] (unlines (table_lines cpus f) @ rest) = table_lines cpus f @ split_lines [] rest"
  by (rule split_lines_unlines) (rule newline_table_lines)

lemma dom_filled: "dom (filled data keys) = dom data \<union> keys"
  by (auto simp: filled_def split: if_splits)

lemma grid_split: "grid len = off_diagonal len \<union> {(int k, int k) | k. k < len}"
  by (auto simp: grid_def off_diagonal_def)





subsection \<open>How \<^verbatim>\<open>main\<close> ends\<close>

lemma for_loop_Inl:
  assumes "for_loop body xs s = Inl out"
  shows "\<exists>x t. x \<in> set xs \<and> body x t = Inl out"
  using assms
proof (induction xs arbitrary: s)
  case Nil
  then show ?case by simp
next
  case (Cons x xs)
  show ?case
  proof (cases "body x s")
    case (Inl a)
    with Cons.prems show ?thesis by auto
  next
    case (Inr t)
    with Cons.prems have "for_loop body xs t = Inl out" by simp
    from Cons.IH [OF this] show ?thesis by auto
  qed
qed

lemma measure_pair_Inl:
  assumes "measure_pair pf cpus n i j data = Inl out"
  shows "\<exists>msg. out = Exit 1 [] (perror ''sched_setaffinity'' msg)"
  using assms by (auto simp: measure_pair_def pinThread_def Let_def split: option.splits)

lemma measure_all_Inl:
  assumes "measure_all pf cpus n = Inl out"
  shows "\<exists>msg. out = Exit 1 [] (perror ''sched_setaffinity'' msg)"
proof -
  from for_loop_Inl [OF assms [unfolded measure_all_def]]
  obtain i t where "for_loop (measure_pair pf cpus n i) [i + 1..<length cpus] t = Inl out" by blast
  from for_loop_Inl [OF this] obtain j u where "measure_pair pf cpus n i j u = Inl out" by blast
  then show ?thesis by (rule measure_pair_Inl)
qed

lemma option_loop_Inl:
  assumes "option_loop pf opts rets = Inl out"
  shows "out = usage \<or> (\<exists>e. out = Terminate e)"
  using assms
proof (induction rets arbitrary: opts)
  case Nil
  then show ?case by simp
next
  case (Cons r rets)
  obtain c a where r: "r = (c, a)" by (cases r)
  show ?case
    using Cons.prems unfolding r
    by (auto split: if_splits sum.splits dest: Cons.IH)
qed

lemma parse_args_Inl:
  assumes "parse_args pf args = Inl out"
  shows "out = usage \<or> (\<exists>e. out = Terminate e)"
  using assms option_loop_Inl
  by (auto simp: parse_args_def split: prod.splits sum.splits if_splits)

lemma main_exit_codes:
  assumes "main pf args = Exit code out err"
  shows "(code = 0 \<and> err = []) \<or> (code = 1 \<and> out = [])"
proof (cases "parse_args pf args")
  case (Inl a)
  with assms parse_args_Inl [OF Inl] show ?thesis by (auto simp: main_def usage_def)
next
  case (Inr opts)
  show ?thesis
  proof (cases "sched_getaffinity pf")
    case (Inl msg)
    with Inr assms show ?thesis by (auto simp: main_def)
  next
    case aff: (Inr cpuset)
    show ?thesis
    proof (cases "measure_all pf (enumerate_cpus opts cpuset) (nsamples opts)")
      case (Inl a)
      with measure_all_Inl [OF Inl] Inr aff assms show ?thesis by (auto simp: main_def)
    next
      case m: (Inr data)
      with Inr aff assms show ?thesis by (auto simp: main_def)
    qed
  qed
qed

lemma stoi_foo: "stoi ''foo'' = Inl Invalid_argument"
  by (simp add: stoi_def isspace_def isdigit_def)

lemma stoi_numbers: "stoi ''2'' = Inr 2" "stoi ''7'' = Inr 7" "stoi ''5000'' = Inr 5000"
  "stoi ''-3'' = Inr (- 3)" "stoi ''99999999999'' = Inl Out_of_range"
  by (simp_all add: stoi_def isspace_def isdigit_def decimal_def digit_value_def INT_MIN_def INT_MAX_def)

lemma example_getopt:
  "getopt (posixly_correct example_platform) ''b:e:ps:'' [] [''-x''] = ([(CHR ''?'', [])], [])"
  "getopt (posixly_correct example_platform) ''b:e:ps:'' [] [''stray''] = ([], [''stray''])"
  "getopt (posixly_correct example_platform) ''b:e:ps:'' [] [''-p'', ''-e'', ''99999999999'']
     = ([(CHR ''p'', []), (CHR ''e'', ''99999999999'')], [])"
  by (simp_all add: example_platform_def nonoption_def)

lemma example_parse_args:
  "parse_args example_platform [''-s'', ''2'', ''-b'', ''2'', ''-e'', ''7'']
     = Inr \<lparr>nsamples = 2, begin_core = 2, end_core = 7, plot = False\<rparr>"
  "parse_args failing_platform [] = Inr (initial_options failing_platform)"
  "parse_args example_platform [] = Inr \<lparr>nsamples = 1000, begin_core = 0, end_core = 1024, plot = False\<rparr>"
  "parse_args example_platform [''-e'', ''5000'']
     = Inr \<lparr>nsamples = 1000, begin_core = 0, end_core = 1024, plot = False\<rparr>"
  "parse_args example_platform [''-b'', ''-3'']
     = Inr \<lparr>nsamples = 1000, begin_core = 0, end_core = 1024, plot = False\<rparr>"
  by (simp_all add: parse_args_def example_platform_def failing_platform_def nonoption_def
      stoi_numbers initial_options_def)

lemma example_enumerate:
  "enumerate_cpus \<lparr>nsamples = 2, begin_core = 2, end_core = 7, plot = False\<rparr> {2, 4, 7} = [2, 4, 7]"
  by (simp add: enumerate_cpus_def enumerate_loop.simps CPU_ISSET_def)

lemma parse_args_bounds:
  assumes "parse_args pf args = Inr opts"
  shows "0 \<le> begin_core opts \<and> end_core opts \<le> CPU_SETSIZE pf"
proof -
  obtain rets rest where g: "getopt (posixly_correct pf) ''b:e:ps:'' [] args = (rets, rest)"
    by (cases "getopt (posixly_correct pf) ''b:e:ps:'' [] args")
  with assms have "option_loop pf (initial_options pf) rets = Inr opts"
    by (auto simp: parse_args_def split: sum.splits if_splits)
  from option_loop_bounds [OF this] show ?thesis by (simp add: initial_options_def)
qed

section \<open>The claims\<close>

text \<open>
  C2. For every affinity mask and every inclusive range from \<^verbatim>\<open>begin_core\<close> to
  \<^verbatim>\<open>end_core\<close>, the enumerated list is strictly ascending and holds exactly the core ids
  that are set in the mask and lie in the range. With the mask \<open>{2, 4, 7}\<close> the range
  from 0 to 10 gives \<open>[2, 4, 7]\<close> and the range from 5 to 10 gives \<open>[7]\<close>.
\<close>

theorem enumerate_cpus_ascending_mask_range:
  "sorted_wrt (<) (enumerate_cpus opts cpuset) \<and>
   set (enumerate_cpus opts cpuset) = {c. CPU_ISSET c cpuset \<and> begin_core opts \<le> c \<and> c \<le> end_core opts} \<and>
   enumerate_cpus \<lparr>nsamples = n, begin_core = 0, end_core = 10, plot = p\<rparr> {2, 4, 7} = [2, 4, 7] \<and>
   enumerate_cpus \<lparr>nsamples = n, begin_core = 5, end_core = 10, plot = p\<rparr> {2, 4, 7} = [7]"
proof -
  have e: "enumerate_cpus opts cpuset = filter (\<lambda>c. CPU_ISSET c cpuset) [begin_core opts..end_core opts]"
    by (simp add: enumerate_cpus_def enumerate_loop_filter)
  have "sorted_wrt (<) (enumerate_cpus opts cpuset)"
    unfolding e by (rule sorted_wrt_filter) (rule sorted_wrt_upto)
  moreover have "set (enumerate_cpus opts cpuset)
      = {c. CPU_ISSET c cpuset \<and> begin_core opts \<le> c \<and> c \<le> end_core opts}"
    unfolding e by auto
  moreover have "enumerate_cpus \<lparr>nsamples = n, begin_core = 0, end_core = 10, plot = p\<rparr> {2, 4, 7} = [2, 4, 7]"
    by (simp add: enumerate_cpus_def enumerate_loop.simps CPU_ISSET_def)
  moreover have "enumerate_cpus \<lparr>nsamples = n, begin_core = 5, end_core = 10, plot = p\<rparr> {2, 4, 7} = [7]"
    by (simp add: enumerate_cpus_def enumerate_loop.simps CPU_ISSET_def)
  ultimately show ?thesis by blast
qed


text \<open>
  C1. For every measured pair (positions \<open>i < j\<close> of the enumerated list) and every
  \<^verbatim>\<open>nsamples\<close> of at least 1, the stored latency is the minimum of the sampled
  round-trip durations divided by 2 and then by 100, with the integer division of
  \<^verbatim>\<open>int64_t\<close>. With one sample it is that sample's duration / 2 / 100. When the clock
  is steady the durations are not negative, so the result is not negative and the
  division is the exact quotient rounded down.
\<close>

theorem latency_is_min_rtt_halved:
  assumes "measure_all pf cpus n = Inr data" and "i < j" and "j < length cpus" and "1 \<le> n"
  shows "\<exists>lat. data (int i, int j) = Some lat \<and> data (int j, int i) = Some lat \<and>
     sint lat = Min ((\<lambda>m. sint (elapsed pf i j m)) ` {0..<nat n}) sdiv 2 sdiv 100 \<and>
     (n = 1 \<longrightarrow> sint lat = sint (elapsed pf i j 0) sdiv 2 sdiv 100) \<and>
     (steady pf n i j \<longrightarrow>
        0 \<le> sint lat \<and>
        sint lat = Min ((\<lambda>m. sint (elapsed pf i j m)) ` {0..<nat n}) div 2 div 100)"
proof -
  let ?lat = "one_way pf n i j"
  let ?min = "Min ((\<lambda>m. sint (elapsed pf i j m)) ` {0..<nat n})"
  from assms(4) have m: "sint (sample_loop pf n i j) = ?min" by (rule sint_sample_loop)
  have a: "sint ?lat = ?min sdiv 2 sdiv 100" by (simp add: sint_one_way m)
  have b: "sint ?lat = sint (elapsed pf i j 0) sdiv 2 sdiv 100" if "n = 1"
    using a that by simp
  have c: "0 \<le> sint ?lat \<and> sint ?lat = ?min div 2 div 100" if "steady pf n i j"
    using steady_one_way [OF that] m by simp
  from measure_all_entry [OF assms(1-3)] a b c show ?thesis by blast
qed

theorem latency_is_min_rtt_halved_witness:
  "measure_all example_platform [2, 4, 7] 2 = Inr example_data \<and>
   steady example_platform 2 0 1 \<and>
   (\<exists>lat. example_data (int 0, int 1) = Some lat \<and> example_data (int 1, int 0) = Some lat \<and>
      0 \<le> sint lat \<and>
      sint lat = Min ((\<lambda>m. sint (elapsed example_platform 0 1 m)) ` {0..<nat 2}) div 2 div 100 \<and>
      sint lat = 60) \<and>
   measure_all example_platform [2, 4, 7] 1 = Inr example_single \<and>
   (\<exists>lat. example_single (int 0, int 1) = Some lat \<and>
      sint lat = sint (elapsed example_platform 0 1 0) sdiv 2 sdiv 100)"
proof -
  have "(0::nat) < 1" "1 < length [2, 4, 7 :: int]" "(1::int) \<le> 2" "(1::int) \<le> 1" by simp_all
  note two = latency_is_min_rtt_halved [OF example_measure_all this(1,2,3)]
    and one = latency_is_min_rtt_halved [OF example_measure_one this(1,2,4)]
  from two example_steady(1)
  obtain lat where lat: "example_data (int 0, int 1) = Some lat" "example_data (int 1, int 0) = Some lat"
    "0 \<le> sint lat"
    "sint lat = Min ((\<lambda>m. sint (elapsed example_platform 0 1 m)) ` {0..<nat 2}) div 2 div 100"
    by blast
  from lat(4) have "sint lat = 60" by (simp only: example_min)
  with lat
  have "\<exists>lat. example_data (int 0, int 1) = Some lat \<and> example_data (int 1, int 0) = Some lat \<and>
      0 \<le> sint lat \<and>
      sint lat = Min ((\<lambda>m. sint (elapsed example_platform 0 1 m)) ` {0..<nat 2}) div 2 div 100 \<and>
      sint lat = 60"
    by blast
  moreover from one
  have "\<exists>lat. example_single (int 0, int 1) = Some lat \<and>
      sint lat = sint (elapsed example_platform 0 1 0) sdiv 2 sdiv 100"
    by blast
  ultimately show ?thesis using example_measure_all example_measure_one example_steady(1) by blast
qed

text \<open>
  C3, as the claim states it, fails: the entries of the map are stored under positions
  of the enumerated list, so for the enumerated cores 2, 4 and 7 there is no entry
  under (4, 7) or (7, 4).
\<close>

theorem missing_core_id_entries_counterexample:
  "measure_all example_platform [2, 4, 7] 2 = Inr example_data \<and>
   example_data (4, 7) = None \<and> example_data (7, 4) = None"
  using example_measure_all by (simp add: example_data_def)

text \<open>
  C3, amended. After all pairs are measured, for every two different positions \<open>i\<close>
  and \<open>j\<close> of the enumerated list both entries \<open>(i, j)\<close> and \<open>(j, i)\<close> exist and are
  equal; they are not negative when the clock is steady during the pair's samples.
  No entry \<open>(k, k)\<close> is written by the measurement.
\<close>

theorem matrix_symmetric_nonnegative:
  assumes "measure_all pf cpus n = Inr data"
  shows "(\<forall>i j. i < length cpus \<and> j < length cpus \<and> i \<noteq> j \<longrightarrow>
            (\<exists>v. data (int i, int j) = Some v \<and> data (int j, int i) = Some v \<and>
                 (steady pf n (min i j) (max i j) \<longrightarrow> 0 \<le> sint v))) \<and>
         (\<forall>k. data (k, k) = None)"
proof -
  have sym: "\<exists>v. data (int i, int j) = Some v \<and> data (int j, int i) = Some v \<and>
      (steady pf n (min i j) (max i j) \<longrightarrow> 0 \<le> sint v)"
    if "i < length cpus" "j < length cpus" "i \<noteq> j" for i j
  proof (cases "i < j")
    case True
    with measure_all_entry [OF assms, of i j] that steady_one_way(1) [of pf n i j]
    show ?thesis by (simp add: min_def max_def)
  next
    case False
    with that have "j < i" by simp
    with measure_all_entry [OF assms, of j i] that steady_one_way(1) [of pf n j i]
    show ?thesis by (simp add: min_def max_def)
  qed
  have "data (k, k) = None" for k
  proof (rule ccontr)
    assume "data (k, k) \<noteq> None"
    then have "(k, k) \<in> dom data" by auto
    then show False by (auto simp: measure_all_dom [OF assms] off_diagonal_def)
  qed
  with sym show ?thesis by blast
qed

theorem matrix_symmetric_nonnegative_witness:
  "measure_all example_platform [2, 4, 7] 2 = Inr example_data \<and>
   steady example_platform 2 (min 2 0) (max 2 0) \<and>
   (\<exists>v. example_data (int 2, int 0) = Some v \<and> example_data (int 0, int 2) = Some v \<and>
      0 \<le> sint v) \<and>
   example_data (1, 1) = None"
proof -
  note t = matrix_symmetric_nonnegative [OF example_measure_all]
  have s: "steady example_platform 2 (min 2 0) (max 2 0)" by (simp add: example_steady)
  from t have "(2::nat) < length [2, 4, 7 :: int] \<and> (0::nat) < length [2, 4, 7 :: int] \<and> (2::nat) \<noteq> 0 \<longrightarrow>
      (\<exists>v. example_data (int 2, int 0) = Some v \<and> example_data (int 0, int 2) = Some v \<and>
         (steady example_platform 2 (min 2 0) (max 2 0) \<longrightarrow> 0 \<le> sint v))"
    by blast
  with s have "\<exists>v. example_data (int 2, int 0) = Some v \<and> example_data (int 0, int 2) = Some v \<and>
      0 \<le> sint v"
    by simp
  moreover from t have "example_data (1, 1) = None" by blast
  ultimately show ?thesis using example_measure_all s by blast
qed

text \<open>
  C4, as the claim states it, fails: for the enumerated cores 2, 4 and 7 the map has no
  key (2, 4) or (4, 2); the first pair is stored under (0, 1) and (1, 0).
\<close>

theorem core_id_keys_counterexample:
  "measure_all example_platform [2, 4, 7] 2 = Inr example_data \<and>
   example_data (2, 4) = None \<and> example_data (4, 2) = None \<and>
   example_data (0, 1) = Some 60 \<and> example_data (1, 0) = Some 60"
  using example_measure_all by (simp add: example_data_def)

text \<open>
  C4, amended. The latency map is keyed by pairs of positions in the enumerated list:
  its keys are exactly the pairs of two different positions, and for positions
  \<open>i < j\<close> the result of the pair's measurement is stored under \<open>(i, j)\<close> and
  \<open>(j, i)\<close>.
\<close>

theorem matrix_keyed_by_positions:
  assumes "measure_all pf cpus n = Inr data"
  shows "dom data = off_diagonal (length cpus) \<and>
    (\<forall>i j. i < j \<and> j < length cpus \<longrightarrow>
       data (int i, int j) = Some (one_way pf n i j) \<and>
       data (int j, int i) = Some (one_way pf n i j))"
  using measure_all_dom [OF assms] measure_all_entry [OF assms] by simp

theorem matrix_keyed_by_positions_witness:
  "measure_all example_platform [2, 4, 7] 2 = Inr example_data \<and>
   dom example_data = off_diagonal (length [2, 4, 7 :: int]) \<and>
   example_data (int 0, int 1) = Some (one_way example_platform 2 0 1) \<and>
   example_data (int 1, int 0) = Some (one_way example_platform 2 0 1)"
proof -
  note t = matrix_keyed_by_positions [OF example_measure_all]
  from t have "dom example_data = off_diagonal (length [2, 4, 7 :: int])" by (rule conjunct1)
  moreover from t have "(0::nat) < 1 \<and> 1 < length [2, 4, 7 :: int] \<longrightarrow>
      example_data (int 0, int 1) = Some (one_way example_platform 2 0 1) \<and>
      example_data (int 1, int 0) = Some (one_way example_platform 2 0 1)"
    by blast
  ultimately show ?thesis using example_measure_all by simp
qed




text \<open>
  C8. For every list of enumerated cores the table is the header line followed by one
  line for each position. The header is \<^verbatim>\<open>CPU\<close> right-justified in a field of four
  characters, then every core id in enumeration order, each after one space and
  right-justified in a field of four characters. The line of position \<open>i\<close> is the core
  id and, in the same column order, the count in nanoseconds stored for \<open>(i, j)\<close>,
  zero when nothing is stored; after the measurement that count is, away from the
  diagonal, the one-way latency measured for the two positions. For the cores 0 and 1
  the header is \<^verbatim>\<open> CPU    0    1\<close> and two lines follow it.
\<close>

theorem table_layout:
  "fst (print_table cpus data) = unlines (table_lines cpus (cell data)) \<and>
   split_lines [] (fst (print_table cpus data))
     = header_line cpus # map (row_line cpus (cell data)) [0..<length cpus] \<and>
   header_line cpus = setw 4 ''CPU'' @ concat (map (\<lambda>c. '' '' @ setw 4 (show_int c)) cpus) \<and>
   row_line cpus (cell data) i
     = setw 4 (show_int (cpus ! i)) @
       concat (map (\<lambda>j. '' '' @ setw 4 (show_int (sint (cell data (int i, int j))))) [0..<length cpus]) \<and>
   length (setw 4 s) = max 4 (length s) \<and>
   (measure_all pf cpus n = Inr data \<and> i < j \<and> j < length cpus
    \<longrightarrow> cell data (int i, int j) = one_way pf n i j \<and> cell data (int j, int i) = one_way pf n i j) \<and>
   hd (split_lines [] (fst (print_table [0, 1] data))) = '' CPU    0    1'' \<and>
   length (split_lines [] (fst (print_table [0, 1] data))) = 3"
proof -
  have a: "fst (print_table cpus data) = unlines (table_lines cpus (cell data))" for cpus
    by (simp add: print_table_eq)
  have b: "split_lines [] (fst (print_table cpus data)) = table_lines cpus (cell data)" for cpus
    using split_lines_table [of cpus "cell data" "[]"] by (simp add: a)
  have c: "hd (split_lines [] (fst (print_table [0, 1] data))) = '' CPU    0    1''"
    by (simp add: b table_lines_def header_line_two)
  have d: "length (split_lines [] (fst (print_table [0, 1] data))) = 3"
    by (simp add: b table_lines_def)
  have e: "cell data (int i, int j) = one_way pf n i j \<and> cell data (int j, int i) = one_way pf n i j"
    if "measure_all pf cpus n = Inr data" "i < j" "j < length cpus"
    using measure_all_entry [OF that] by (simp add: cell_def)
  have f: "length (setw 4 s) = max 4 (length s)" by (simp add: setw_def)
  have g: "split_lines [] (fst (print_table cpus data))
     = header_line cpus # map (row_line cpus (cell data)) [0..<length cpus]"
    by (simp add: b table_lines_def)
  have h: "header_line cpus = setw 4 ''CPU'' @ concat (map (\<lambda>c. '' '' @ setw 4 (show_int c)) cpus)"
    by (simp add: header_line_def)
  have k: "row_line cpus (cell data) i
     = setw 4 (show_int (cpus ! i)) @
       concat (map (\<lambda>j. '' '' @ setw 4 (show_int (sint (cell data (int i, int j))))) [0..<length cpus])"
    by (simp add: row_line_def)
  from a [of cpus] g h k f e c d show ?thesis by blast
qed

theorem table_layout_witness:
  "measure_all example_platform [2, 4, 7] 2 = Inr example_data \<and>
   (0::nat) < 1 \<and> 1 < length [2, 4, 7 :: int] \<and>
   cell example_data (int 0, int 1) = one_way example_platform 2 0 1 \<and>
   cell example_data (int 1, int 0) = one_way example_platform 2 0 1 \<and>
   split_lines [] (fst (print_table [2, 4, 7] example_data)) =
     ['' CPU    2    4    7'', ''   2    0   60   70'', ''   4   60    0   80'',
      ''   7   70   80    0'']"
proof -
  note t = table_layout [of "[2, 4, 7]" example_data _ _ example_platform 2]
  have l: "(0::nat) < 1" "1 < length [2, 4, 7 :: int]" by simp_all
  from table_layout [of "[2, 4, 7]" example_data 0 _ example_platform 2 1] example_measure_all l
  have c: "cell example_data (int 0, int 1) = one_way example_platform 2 0 1 \<and>
      cell example_data (int 1, int 0) = one_way example_platform 2 0 1"
    by blast
  from t have "split_lines [] (fst (print_table [2, 4, 7] example_data))
     = header_line [2, 4, 7] # map (row_line [2, 4, 7] (cell example_data)) [0..<length [2, 4, 7 :: int]]"
    by blast
  also have "\<dots> = ['' CPU    2    4    7'', ''   2    0   60   70'', ''   4   60    0   80'',
      ''   7   70   80    0'']"
    by (simp add: header_line_def row_line_def upt_rec cell_def example_data_def show_int_def
        show_nat_small show_nat_large setw_def numeral_3_eq_3 numeral_2_eq_2)
  finally show ?thesis using c l example_measure_all by blast
qed

text \<open>
  C9. For every position \<open>i\<close> of the enumerated list the measurement leaves the key
  \<open>(i, i)\<close> absent; the printing loop's \<^verbatim>\<open>data[{i, i}]\<close> inserts a zero duration
  there and prints it as 0 in column \<open>i\<close> of row \<open>i\<close>. After printing the map holds
  its former entries unchanged and, in addition, every diagonal key.
\<close>

theorem diagonal_cells_zero:
  assumes "measure_all pf cpus n = Inr data" and "i < length cpus"
  shows "data (int i, int i) = None \<and>
     snd (print_table cpus data) (int i, int i) = Some 0 \<and>
     snd (print_table cpus data) |` dom data = data \<and>
     dom (snd (print_table cpus data)) = dom data \<union> {(int k, int k) | k. k < length cpus} \<and>
     split_lines [] (fst (print_table cpus data)) ! Suc i =
       setw 4 (show_int (cpus ! i)) @
       concat (map (\<lambda>j. '' '' @ setw 4 (show_int (sint (cell data (int i, int j))))) [0..<i]) @
       ''    0'' @
       concat (map (\<lambda>j. '' '' @ setw 4 (show_int (sint (cell data (int i, int j))))) [Suc i..<length cpus])"
proof -
  have d: "dom data = off_diagonal (length cpus)" by (rule measure_all_dom [OF assms(1)])
  have "(int i, int i) \<notin> dom data" by (auto simp: d off_diagonal_def)
  then have none: "data (int i, int i) = None" by auto
  then have zero: "cell data (int i, int i) = 0" by (simp add: cell_def)
  from assms(2) have g: "(int i, int i) \<in> grid (length cpus)" by (auto simp: grid_def)
  have after: "snd (print_table cpus data) = filled data (grid (length cpus))"
    by (simp add: print_table_eq)
  from g zero have some: "snd (print_table cpus data) (int i, int i) = Some 0"
    by (simp add: after filled_def)
  have keep: "snd (print_table cpus data) |` dom data = data"
  proof (rule ext)
    fix key
    show "(snd (print_table cpus data) |` dom data) key = data key"
      by (cases "data key") (auto simp: after filled_def restrict_map_def cell_def)
  qed
  have dom: "dom (snd (print_table cpus data)) = dom data \<union> {(int k, int k) | k. k < length cpus}"
    unfolding after dom_filled d grid_split by blast
  have "split_lines [] (fst (print_table cpus data)) = table_lines cpus (cell data)"
    using split_lines_table [of cpus "cell data" "[]"] by (simp add: print_table_eq)
  with assms(2) have "split_lines [] (fst (print_table cpus data)) ! Suc i = row_line cpus (cell data) i"
    by (simp add: table_lines_def)
  moreover from assms(2) have "[0..<length cpus] = [0..<i] @ i # [Suc i..<length cpus]"
    by (metis le_add1 less_imp_add_positive upt_add_eq_append upt_conv_Cons add_0)
  ultimately have row: "split_lines [] (fst (print_table cpus data)) ! Suc i =
       setw 4 (show_int (cpus ! i)) @
       concat (map (\<lambda>j. '' '' @ setw 4 (show_int (sint (cell data (int i, int j))))) [0..<i]) @
       ''    0'' @
       concat (map (\<lambda>j. '' '' @ setw 4 (show_int (sint (cell data (int i, int j))))) [Suc i..<length cpus])"
    using zero_cell by (simp add: row_line_def zero)
  from none some keep dom row show ?thesis by blast
qed

theorem diagonal_cells_zero_witness:
  "measure_all example_platform [2, 4, 7] 2 = Inr example_data \<and>
   (1::nat) < length [2, 4, 7 :: int] \<and>
   example_data (int 1, int 1) = None \<and>
   snd (print_table [2, 4, 7] example_data) (int 1, int 1) = Some 0 \<and>
   split_lines [] (fst (print_table [2, 4, 7] example_data)) ! Suc 1 = ''   4   60    0   80''"
proof -
  have l: "(1::nat) < length [2, 4, 7 :: int]" by simp
  have u: "[Suc 1..<length [2, 4, 7 :: int]] = [2]" "[0..<1] = [0::nat]" by (simp_all add: upt_rec)
  from diagonal_cells_zero [OF example_measure_all l]
  show ?thesis
    using example_measure_all
    by (simp add: u cell_def example_data_def show_int_def show_nat_small show_nat_large
        setw_def numeral_3_eq_3 numeral_2_eq_2)
qed


text \<open>
  C6. The defaults are 1000 samples, \<^verbatim>\<open>begin_core\<close> 0 and \<^verbatim>\<open>end_core\<close>
  \<^verbatim>\<open>CPU_SETSIZE\<close>; an argument of \<^verbatim>\<open>-b\<close> below 0 becomes 0. The claim that the upper
  bound is capped at the largest addressable core index does not hold of the code: on a
  platform with \<^verbatim>\<open>CPU_SETSIZE\<close> 1024 the largest index of a \<^verbatim>\<open>cpu_set_t\<close> is 1023,
  while both the default and the cap of \<^verbatim>\<open>-e\<close> are 1024, and the enumeration loop,
  whose test is \<^verbatim>\<open>i <= end_core\<close>, reads the bit of index 1024 after the 1024 bits up
  to index 1023.
\<close>

theorem end_core_cap_is_CPU_SETSIZE:
  "parse_args example_platform [] =
     Inr \<lparr>nsamples = 1000, begin_core = 0, end_core = 1024, plot = False\<rparr> \<and>
   parse_args example_platform [''-e'', ''5000''] =
     Inr \<lparr>nsamples = 1000, begin_core = 0, end_core = 1024, plot = False\<rparr> \<and>
   parse_args example_platform [''-b'', ''-3''] =
     Inr \<lparr>nsamples = 1000, begin_core = 0, end_core = 1024, plot = False\<rparr> \<and>
   CPU_SETSIZE example_platform - 1 = 1023 \<and>
   enumerate_cpus \<lparr>nsamples = 1000, begin_core = 0, end_core = 1024, plot = False\<rparr> cpuset =
     enumerate_cpus \<lparr>nsamples = 1000, begin_core = 0, end_core = 1023, plot = False\<rparr> cpuset @
     (if CPU_ISSET 1024 cpuset then [1024] else [])"
proof -
  have "[0..1024::int] = [0..1023] @ [1024]"
    using upto_rec2 [of 0 1024] by simp
  then have "enumerate_cpus \<lparr>nsamples = 1000, begin_core = 0, end_core = 1024, plot = False\<rparr> cpuset =
     enumerate_cpus \<lparr>nsamples = 1000, begin_core = 0, end_core = 1023, plot = False\<rparr> cpuset @
     (if CPU_ISSET 1024 cpuset then [1024] else [])"
    by (simp add: enumerate_cpus_def enumerate_loop_filter)
  then show ?thesis by (simp add: example_parse_args) (simp add: example_platform_def)
qed

text \<open>
  C7, as the claim states it, fails: the command line \<^verbatim>\<open>-s foo -x\<close> contains the
  unrecognized flag \<^verbatim>\<open>-x\<close>, but \<^verbatim>\<open>getopt\<close> first returns \<^verbatim>\<open>'s'\<close> with the argument
  \<^verbatim>\<open>foo\<close>, \<^verbatim>\<open>std::stoi\<close> throws, and the process ends in \<^verbatim>\<open>std::terminate\<close> without
  the usage text and without exit code 1.
\<close>

theorem usage_not_printed_counterexample:
  "getopt (posixly_correct example_platform) ''b:e:ps:'' [] [''-s'', ''foo'', ''-x'']
     = ([(CHR ''s'', ''foo''), (CHR ''?'', [])], []) \<and>
   main example_platform [''-s'', ''foo'', ''-x''] = Terminate Invalid_argument \<and>
   main example_platform [''-s'', ''foo'', ''-x''] \<noteq> Exit 1 [] usage_text"
  by (simp add: main_def parse_args_def example_platform_def nonoption_def stoi_foo)

text \<open>
  C7, amended. When \<^verbatim>\<open>getopt\<close> reports an unrecognized flag or a missing option
  argument, or leaves a positional argument, and every \<^verbatim>\<open>-s\<close>, \<^verbatim>\<open>-b\<close> or \<^verbatim>\<open>-e\<close>
  argument it returns before that is accepted by \<^verbatim>\<open>std::stoi\<close>, the program writes the
  usage text to the error stream and exits with code 1, with nothing on the standard
  output. When the arguments are accepted and the affinity query fails, it writes the
  error of the operating system and exits with code 1. When the arguments are accepted,
  the query succeeds and every pair is measured, it writes the table and exits with
  code 0. Every exit is either code 0 with an empty error stream or code 1 with an
  empty standard output.
\<close>

theorem usage_affinity_success_exits:
  "(getopt (posixly_correct pf) ''b:e:ps:'' [] args = (rets, rest) \<and>
      ((\<exists>r\<in>set rets. \<not> handled r) \<or> rest \<noteq> []) \<and>
      (\<forall>r\<in>set (takeWhile handled rets). parses r)
    \<longrightarrow> main pf args = Exit 1 [] usage_text) \<and>
   (parse_args pf args = Inr opts \<and> sched_getaffinity pf = Inl msg
    \<longrightarrow> main pf args = Exit 1 [] (''sched_getaffinity: '' @ msg @ ''\<newline>'')) \<and>
   (parse_args pf args = Inr opts \<and> sched_getaffinity pf = Inr cpuset \<and>
      measure_all pf (enumerate_cpus opts cpuset) (nsamples opts) = Inr data
    \<longrightarrow> main pf args = Exit 0 (fst (print_all (plot opts) (enumerate_cpus opts cpuset) data)) []) \<and>
   (main pf args = Exit code out err \<longrightarrow> (code = 0 \<and> err = []) \<or> (code = 1 \<and> out = []))"
proof -
  have a: "main pf args = Exit 1 [] usage_text"
    if "getopt (posixly_correct pf) ''b:e:ps:'' [] args = (rets, rest)"
      "(\<exists>r\<in>set rets. \<not> handled r) \<or> rest \<noteq> []"
      "\<forall>r\<in>set (takeWhile handled rets). parses r"
    using main_usage [OF that] by (simp add: usage_def)
  have b: "main pf args = Exit 1 [] (''sched_getaffinity: '' @ msg @ ''\<newline>'')"
    if "parse_args pf args = Inr opts" "sched_getaffinity pf = Inl msg"
    using that by (simp add: main_def perror_def)
  have c: "main pf args = Exit 0 (fst (print_all (plot opts) (enumerate_cpus opts cpuset) data)) []"
    if "parse_args pf args = Inr opts" "sched_getaffinity pf = Inr cpuset"
      "measure_all pf (enumerate_cpus opts cpuset) (nsamples opts) = Inr data"
    using that by (simp add: main_def)
  from a b c main_exit_codes [of pf args code out err] show ?thesis by blast
qed

theorem usage_affinity_success_exits_witness:
  "main example_platform [''-x''] = Exit 1 [] usage_text \<and>
   main example_platform [''stray''] = Exit 1 [] usage_text \<and>
   main failing_platform [] = Exit 1 [] ''sched_getaffinity: Operation not permitted\<newline>'' \<and>
   main example_platform [''-s'', ''2'', ''-b'', ''2'', ''-e'', ''7'']
     = Exit 0 (fst (print_all False [2, 4, 7] example_data)) []"
proof -
  have a: "main example_platform [''-x''] = Exit 1 [] usage_text"
  proof -
    have "(\<exists>r\<in>set [(CHR ''?'', [])]. \<not> handled r) \<or> ([] :: string list) \<noteq> []"
      and "\<forall>r\<in>set (takeWhile handled [(CHR ''?'', [])]). parses r"
      by (simp_all add: handled_def)
    with usage_affinity_success_exits [of example_platform "[''-x'']" "[(CHR ''?'', [])]" "[]"]
      example_getopt(1)
    show ?thesis by blast
  qed
  have b: "main example_platform [''stray''] = Exit 1 [] usage_text"
  proof -
    have "(\<exists>r\<in>set ([] :: (char \<times> string) list). \<not> handled r) \<or> [''stray''] \<noteq> []"
      and "\<forall>r\<in>set (takeWhile handled []). parses r"
      by simp_all
    with usage_affinity_success_exits [of example_platform "[''stray'']" "[]" "[''stray'']"]
      example_getopt(2)
    show ?thesis by blast
  qed
  have c: "main failing_platform [] = Exit 1 [] ''sched_getaffinity: Operation not permitted\<newline>''"
  proof -
    have "sched_getaffinity failing_platform = Inl ''Operation not permitted''"
      by (simp add: failing_platform_def)
    with usage_affinity_success_exits [of failing_platform "[]" _ _ "initial_options failing_platform"
        "''Operation not permitted''"] example_parse_args(2)
    have "main failing_platform [] = Exit 1 [] (''sched_getaffinity: '' @ ''Operation not permitted'' @ ''\<newline>'')"
      by blast
    then show ?thesis by simp
  qed
  have d: "main example_platform [''-s'', ''2'', ''-b'', ''2'', ''-e'', ''7'']
     = Exit 0 (fst (print_all False [2, 4, 7] example_data)) []"
  proof -
    let ?opts = "\<lparr>nsamples = 2, begin_core = 2, end_core = 7, plot = False\<rparr>"
    have "sched_getaffinity example_platform = Inr {2, 4, 7}"
      by (simp add: example_platform_def)
    moreover have "measure_all example_platform (enumerate_cpus ?opts {2, 4, 7}) (nsamples ?opts)
        = Inr example_data"
      by (simp add: example_enumerate example_measure_all)
    ultimately have "main example_platform [''-s'', ''2'', ''-b'', ''2'', ''-e'', ''7'']
        = Exit 0 (fst (print_all (plot ?opts) (enumerate_cpus ?opts {2, 4, 7}) example_data)) []"
      using usage_affinity_success_exits [of example_platform "[''-s'', ''2'', ''-b'', ''2'', ''-e'', ''7'']" _ _
        ?opts _ "{2, 4, 7}" example_data] example_parse_args(1)
      by blast
    then show ?thesis by (simp add: example_enumerate)
  qed
  from a b c d show ?thesis by blast
qed

text \<open>
  C10, as the claim states it, fails: on the command line \<^verbatim>\<open>-x -s foo\<close> the argument
  of \<^verbatim>\<open>-s\<close> is not an integer, but \<^verbatim>\<open>getopt\<close> first returns \<^verbatim>\<open>'?'\<close> for \<^verbatim>\<open>-x\<close>, the
  \<^verbatim>\<open>switch\<close> jumps to \<^verbatim>\<open>usage\<close>, and the program writes the usage text and exits with
  code 1 before \<^verbatim>\<open>std::stoi\<close> is ever called.
\<close>

theorem usage_before_unparseable_number_counterexample:
  "getopt (posixly_correct example_platform) ''b:e:ps:'' [] [''-x'', ''-s'', ''foo'']
     = ([(CHR ''?'', []), (CHR ''s'', ''foo'')], []) \<and>
   stoi ''foo'' = Inl Invalid_argument \<and>
   main example_platform [''-x'', ''-s'', ''foo''] = Exit 1 [] usage_text \<and>
   main example_platform [''-x'', ''-s'', ''foo''] \<noteq> Terminate Invalid_argument"
  by (simp add: main_def parse_args_def example_platform_def nonoption_def stoi_foo usage_def)

text \<open>
  C10, amended. Whenever the \<^verbatim>\<open>switch\<close> handles \<^verbatim>\<open>-s\<close>, \<^verbatim>\<open>-b\<close> or \<^verbatim>\<open>-e\<close> with an
  argument that \<^verbatim>\<open>std::stoi\<close> rejects, the exception ends the option loop. For a command
  line on which \<^verbatim>\<open>getopt\<close> returns such an option, and before it only options that have
  a \<^verbatim>\<open>case\<close>, the process ends in \<^verbatim>\<open>std::terminate\<close>; this is not the exit with the
  usage text and code 1. The command line \<^verbatim>\<open>-s foo\<close> ends so on every platform.
\<close>

theorem unparseable_number_terminates:
  "(c \<in> set ''sbe'' \<and> stoi optarg = Inl e
    \<longrightarrow> option_loop pf opts ((c, optarg) # later) = Inl (Terminate e)) \<and>
   (getopt (posixly_correct pf) ''b:e:ps:'' [] args = (rets, rest) \<and>
      k < length rets \<and> rets ! k = (c, optarg) \<and> c \<in> set ''sbe'' \<and> stoi optarg = Inl e \<and>
      (\<forall>r\<in>set (take k rets). handled r)
    \<longrightarrow> (\<exists>e'. main pf args = Terminate e') \<and> main pf args \<noteq> Exit 1 [] usage_text) \<and>
   main pf [''-s'', ''foo''] = Terminate Invalid_argument"
proof -
  have a: "option_loop pf opts ((c, optarg) # later) = Inl (Terminate e)"
    if "c \<in> set ''sbe''" "stoi optarg = Inl e"
    using that by (rule option_loop_stoi_throws)
  have b: "(\<exists>e'. main pf args = Terminate e') \<and> main pf args \<noteq> Exit 1 [] usage_text"
    if "getopt (posixly_correct pf) ''b:e:ps:'' [] args = (rets, rest)"
      "k < length rets" "rets ! k = (c, optarg)" "c \<in> set ''sbe''" "stoi optarg = Inl e"
      "\<forall>r\<in>set (take k rets). handled r"
    using main_terminate [OF that] by auto
  have c: "main pf [''-s'', ''foo''] = Terminate Invalid_argument"
    by (simp add: main_def parse_args_def nonoption_def stoi_foo)
  from a b c show ?thesis by blast
qed

theorem unparseable_number_terminates_witness:
  "getopt (posixly_correct example_platform) ''b:e:ps:'' [] [''-p'', ''-e'', ''99999999999'']
     = ([(CHR ''p'', []), (CHR ''e'', ''99999999999'')], []) \<and>
   stoi ''99999999999'' = Inl Out_of_range \<and>
   option_loop example_platform (initial_options example_platform) [(CHR ''e'', ''99999999999'')]
     = Inl (Terminate Out_of_range) \<and>
   (\<exists>e'. main example_platform [''-p'', ''-e'', ''99999999999''] = Terminate e') \<and>
   main example_platform [''-p'', ''-e'', ''99999999999''] \<noteq> Exit 1 [] usage_text"
proof -
  note t = unparseable_number_terminates [of "CHR ''e''" "''99999999999''" Out_of_range
      example_platform "initial_options example_platform" "[]"
      "[''-p'', ''-e'', ''99999999999'']" "[(CHR ''p'', []), (CHR ''e'', ''99999999999'')]" "[]" 1]
  have c: "CHR ''e'' \<in> set ''sbe''" by simp
  have k: "1 < length [(CHR ''p'', []), (CHR ''e'', ''99999999999'')]"
    "[(CHR ''p'', []), (CHR ''e'', ''99999999999'')] ! 1 = (CHR ''e'', ''99999999999'')"
    "\<forall>r\<in>set (take 1 [(CHR ''p'', []), (CHR ''e'', ''99999999999'')]). handled r"
    by (simp_all add: handled_def)
  from t c stoi_numbers(5)
  have "option_loop example_platform (initial_options example_platform) [(CHR ''e'', ''99999999999'')]
     = Inl (Terminate Out_of_range)"
    by blast
  moreover from t c k stoi_numbers(5) example_getopt(3)
  have "(\<exists>e'. main example_platform [''-p'', ''-e'', ''99999999999''] = Terminate e') \<and>
      main example_platform [''-p'', ''-e'', ''99999999999''] \<noteq> Exit 1 [] usage_text"
    by blast
  ultimately show ?thesis using example_getopt(3) stoi_numbers(5) by blast
qed

end
